theory Spec2Isabelle
  imports Main "HOL-Library.Sublist"
begin

section \<open>Python strings\<close>

text \<open>
  A Python \<open>str\<close> is modelled as a \<open>string\<close> whose characters are read as the code
  points U+0000 .. U+00FF. On these code points \<open>str.isspace\<close> and \<open>str.strip\<close> are
  written out below as CPython defines them.
\<close>

definition isspace :: "char \<Rightarrow> bool" where
  "isspace c =
     (let n = (of_char c :: nat)
      in (9 \<le> n \<and> n \<le> 13) \<or> (28 \<le> n \<and> n \<le> 32) \<or> n = 133 \<or> n = 160)"

definition lstrip :: "string \<Rightarrow> string" where
  "lstrip s = dropWhile isspace s"

definition rstrip :: "string \<Rightarrow> string" where
  "rstrip s = rev (dropWhile isspace (rev s))"

definition strip :: "string \<Rightarrow> string" where
  "strip s = rstrip (lstrip s)"

text \<open>
  \<open>str.lower\<close>. On a string of ASCII characters it maps \<open>A\<close> .. \<open>Z\<close> to \<open>a\<close> .. \<open>z\<close>,
  character by character, and leaves the rest. Outside ASCII the Unicode lowering
  can change the length of a string (U+0130) and depends on context (final sigma); it
  is not written out. The lowering of a string with a non-ASCII character is given by
  a parameter, a function on whole strings, about which nothing is assumed.
\<close>

definition is_ascii :: "string \<Rightarrow> bool" where
  "is_ascii s = list_all (\<lambda>c. (of_char c :: nat) < 128) s"

definition lower_ascii :: "char \<Rightarrow> char" where
  "lower_ascii c =
     (let n = (of_char c :: nat)
      in if 65 \<le> n \<and> n \<le> 90 then char_of (n + 32) else c)"

definition lower :: "(string \<Rightarrow> string) \<Rightarrow> string \<Rightarrow> string" where
  "lower unicode_lower s = (if is_ascii s then map lower_ascii s else unicode_lower s)"

text \<open>\<open>sub in s\<close> on strings: \<open>sub\<close> occurs in \<open>s\<close> as a contiguous block.\<close>

fun startswith :: "string \<Rightarrow> string \<Rightarrow> bool" where
  "startswith s [] = True"
| "startswith [] (p # ps) = False"
| "startswith (c # cs) (p # ps) = (c = p \<and> startswith cs ps)"

fun str_contains :: "string \<Rightarrow> string \<Rightarrow> bool" where
  "str_contains [] sub = (sub = [])"
| "str_contains (c # cs) sub = (startswith (c # cs) sub \<or> str_contains cs sub)"

text \<open>\<open>\\S+\<close> words of a string, as \<open>str.split()\<close> gives them.\<close>

fun split_ws :: "string \<Rightarrow> string \<Rightarrow> string list" where
  "split_ws cur [] = (if cur = [] then [] else [cur])"
| "split_ws cur (c # cs) =
     (if isspace c then (if cur = [] then split_ws [] cs else cur # split_ws [] cs)
      else split_ws (cur @ [c]) cs)"

text \<open>Decimal rendering of a non-negative integer, as \<open>str(n)\<close> and f-strings do.\<close>

fun str_nat :: "nat \<Rightarrow> string" where
  "str_nat n =
     (if n < 10 then [char_of (48 + n)]
      else str_nat (n div 10) @ [char_of (48 + n mod 10)])"

declare str_nat.simps [simp del]

section \<open>The parsed document\<close>

text \<open>
  The tree that \<open>BeautifulSoup(page_source, "html.parser")\<close> builds: a \<open>Tag\<close> has a
  name, an attribute dictionary and its contents; text is a \<open>NavigableString\<close>.
  The attribute dictionary is an association list read with \<open>map_of\<close>. Comments and
  other special strings are left out of the model.
\<close>

datatype node =
    Tag (tag_name: string) (attrs: "(string \<times> string) list") (contents: "node list")
  | NavigableString string

text \<open>
  A tag as the program holds it: the node together with its chain of ancestors, the
  nearest first (\<open>.parent\<close>, \<open>.parent.parent\<close>, ...). Selectors with a descendant
  combinator look at that chain.
\<close>

type_synonym element = "node list \<times> node"

fun descendants :: "node list \<Rightarrow> node \<Rightarrow> element list" where
  "descendants anc (NavigableString s) = []"
| "descendants anc (Tag n a cs) =
     concat (map (\<lambda>c. (Tag n a cs # anc, c) # descendants (Tag n a cs # anc) c) cs)"

definition soup_descendants :: "node list \<Rightarrow> element list" where
  "soup_descendants doc = concat (map (\<lambda>c. ([], c) # descendants [] c) doc)"

definition element_descendants :: "element \<Rightarrow> element list" where
  "element_descendants el = descendants (fst el) (snd el)"

text \<open>All strings below a node in document order (\<open>_all_strings\<close>).\<close>

fun strings :: "node \<Rightarrow> string list" where
  "strings (NavigableString s) = [s]"
| "strings (Tag n a cs) = concat (map strings cs)"

text \<open>\<open>tag.text\<close>: the strings joined as they are.\<close>

definition text_of :: "element \<Rightarrow> string" where
  "text_of el = concat (strings (snd el))"

text \<open>\<open>tag.get_text(strip=True)\<close>: each string stripped, the empty ones dropped.\<close>

definition get_text_strip :: "element \<Rightarrow> string" where
  "get_text_strip el = concat (filter (\<lambda>s. s \<noteq> []) (map strip (strings (snd el))))"

section \<open>Exceptions\<close>

datatype exn =
    HTTPException (status_code: nat) (detail: string)
  | KeyError string
  | PlaywrightError string
  | ParserRejectedMarkup string

definition quote :: "string \<Rightarrow> string" where
  "quote k = [CHR 0x27] @ k @ [CHR 0x27]"

text \<open>
  \<open>str(e)\<close>. Starlette's \<open>HTTPException.__str__\<close> gives \<open>f"{status_code}: {detail}"\<close>;
  a \<open>KeyError\<close> prints the \<open>repr\<close> of its key (here only \<open>href\<close> and \<open>src\<close>, for which
  \<open>repr\<close> is the key in single quotes); a Playwright error and a \<open>ParserRejectedMarkup\<close>
  print their message.
\<close>

fun str_exn :: "exn \<Rightarrow> string" where
  "str_exn (HTTPException c d) = str_nat c @ '': '' @ d"
| "str_exn (KeyError k) = quote k"
| "str_exn (PlaywrightError m) = m"
| "str_exn (ParserRejectedMarkup m) = m"

text \<open>\<open>tag[key]\<close>: the attribute's value, \<open>KeyError\<close> when the tag has no such attribute.\<close>

definition getitem :: "element \<Rightarrow> string \<Rightarrow> exn + string" where
  "getitem el key =
     (case snd el of
        Tag n a cs \<Rightarrow> (case map_of a key of None \<Rightarrow> Inl (KeyError key) | Some v \<Rightarrow> Inr v)
      | NavigableString s \<Rightarrow> Inl (KeyError key))"

section \<open>Selectors\<close>

text \<open>
  The CSS selectors of the program are compound selectors \<open>tag\<close> or \<open>tag.class\<close> joined
  by descendant combinators. A selector is the list of its compounds, the rightmost
  first: \<open>h4.sku-title a\<close> is \<open>[a, h4.sku-title]\<close>.
\<close>

datatype compound = Compound string "string option"

definition classes :: "node \<Rightarrow> string list" where
  "classes nd =
     (case nd of
        Tag n a cs \<Rightarrow> (case map_of a ''class'' of None \<Rightarrow> [] | Some v \<Rightarrow> split_ws [] v)
      | NavigableString s \<Rightarrow> [])"

fun match_compound :: "compound \<Rightarrow> node \<Rightarrow> bool" where
  "match_compound (Compound t cls) (NavigableString s) = False"
| "match_compound (Compound t cls) (Tag n a cs) =
     (n = t \<and> (case cls of None \<Rightarrow> True | Some k \<Rightarrow> k \<in> set (classes (Tag n a cs))))"

fun match_ancestors :: "compound list \<Rightarrow> node list \<Rightarrow> bool" where
  "match_ancestors [] anc = True"
| "match_ancestors (c # cs) [] = False"
| "match_ancestors (c # cs) (a # anc) =
     ((match_compound c a \<and> match_ancestors cs anc) \<or> match_ancestors (c # cs) anc)"

fun match_selector :: "compound list \<Rightarrow> element \<Rightarrow> bool" where
  "match_selector [] el = False"
| "match_selector (c # cs) (anc, nd) = (match_compound c nd \<and> match_ancestors cs anc)"

text \<open>\<open>soup.select(sel)\<close>, \<open>item.select_one(sel)\<close> and \<open>item.find(name)\<close>.\<close>

definition soup_select :: "compound list \<Rightarrow> node list \<Rightarrow> element list" where
  "soup_select sel doc = filter (match_selector sel) (soup_descendants doc)"

definition select_one :: "compound list \<Rightarrow> element \<Rightarrow> element option" where
  "select_one sel item = find (match_selector sel) (element_descendants item)"

definition find_tag :: "string \<Rightarrow> element \<Rightarrow> element option" where
  "find_tag t item = find (\<lambda>el. match_compound (Compound t None) (snd el)) (element_descendants item)"

section \<open>The browser\<close>

text \<open>
  Playwright is an external service. Every call the program makes to it is logged in
  a trace. The environment decides, from the trace up to and including the call,
  whether the call raises (and with which message) and which markup \<open>page.content()\<close>
  returns; quantifying over environments covers every behaviour of browser and site.
  \<open>Start\<close> and \<open>Stop\<close> are entering and leaving \<open>async with async_playwright()\<close>.
\<close>

datatype call =
    Start
  | Launch
  | NewPage
  | Goto string
  | Content
  | Click string
  | WaitForLoadState string
  | Close
  | Stop

record env =
  raises :: "call list \<Rightarrow> string option"
  rendered :: "call list \<Rightarrow> string"

record world =
  trace :: "call list"
  driver_running :: bool
  browser_open :: bool
  page_open :: bool

text \<open>
  What a call that did not raise does to the session: \<open>browser.close()\<close> closes the
  browser with its pages, and stopping Playwright ends the driver process together with
  every browser it launched.
\<close>

fun effect :: "call \<Rightarrow> world \<Rightarrow> world" where
  "effect Start w = w\<lparr>driver_running := True\<rparr>"
| "effect Launch w = w\<lparr>browser_open := True\<rparr>"
| "effect NewPage w = w\<lparr>page_open := True\<rparr>"
| "effect Close w = w\<lparr>browser_open := False, page_open := False\<rparr>"
| "effect Stop w = w\<lparr>driver_running := False, browser_open := False, page_open := False\<rparr>"
| "effect c w = w"

type_synonym 'a io = "world \<Rightarrow> (exn + 'a) \<times> world"

definition return_io :: "'a \<Rightarrow> 'a io" where
  "return_io x = (\<lambda>w. (Inr x, w))"

definition bind_io :: "'a io \<Rightarrow> ('a \<Rightarrow> 'b io) \<Rightarrow> 'b io" where
  "bind_io m f = (\<lambda>w. case m w of (Inl e, w') \<Rightarrow> (Inl e, w') | (Inr x, w') \<Rightarrow> f x w')"

definition log_call :: "call \<Rightarrow> world \<Rightarrow> world" where
  "log_call c w = w\<lparr>trace := trace w @ [c]\<rparr>"

definition playwright_call :: "env \<Rightarrow> call \<Rightarrow> unit io" where
  "playwright_call E c =
     (\<lambda>w. case raises E (trace w @ [c]) of
             Some msg \<Rightarrow> (Inl (PlaywrightError msg), log_call c w)
           | None \<Rightarrow> (Inr (), effect c (log_call c w)))"

definition page_content :: "env \<Rightarrow> string io" where
  "page_content E =
     (\<lambda>w. case raises E (trace w @ [Content]) of
             Some msg \<Rightarrow> (Inl (PlaywrightError msg), log_call Content w)
           | None \<Rightarrow> (Inr (rendered E (trace w @ [Content])), log_call Content w))"

text \<open>
  Leaving the \<open>async with\<close> block: Playwright is stopped on every way out of the block,
  and the block's result or exception is passed on. The exit itself is taken not to
  raise.
\<close>

definition async_with_exit :: "'a io \<Rightarrow> 'a io" where
  "async_with_exit block = (\<lambda>w. case block w of (r, w') \<Rightarrow> (r, effect Stop (log_call Stop w')))"

section \<open>fetch_page_source\<close>

definition BASE_URL :: string where
  "BASE_URL = ''https://www.bestbuy.com''"

text \<open>Lines 36 to 44, the block inside \<open>async with\<close>.\<close>

definition fetch_page_source_block :: "env \<Rightarrow> string \<Rightarrow> string io" where
  "fetch_page_source_block E url =
     bind_io (playwright_call E Launch) (\<lambda>_.
     bind_io (playwright_call E NewPage) (\<lambda>_.
     bind_io (playwright_call E (Goto url)) (\<lambda>_.
     bind_io (page_content E) (\<lambda>loaded.
     bind_io (if str_contains loaded ''Choose a country''
              then bind_io (playwright_call E (Click ''a.us-link''))
                     (\<lambda>_. playwright_call E (WaitForLoadState ''networkidle''))
              else return_io ()) (\<lambda>_.
     bind_io (page_content E) (\<lambda>content.
     bind_io (playwright_call E Close) (\<lambda>_.
     return_io content)))))))"

definition fetch_page_source :: "env \<Rightarrow> string \<Rightarrow> string io" where
  "fetch_page_source E url =
     bind_io (playwright_call E Start) (\<lambda>_. async_with_exit (fetch_page_source_block E url))"

section \<open>The handlers\<close>

record category =
  name :: string
  url :: string

record product =
  name :: string
  photo :: string
  price :: string

text \<open>The selectors the handlers use.\<close>

definition sel_carousel_item :: "compound list" where
  "sel_carousel_item = [Compound ''li'' (Some ''c-carousel-item'')]"

definition sel_sku_item :: "compound list" where
  "sel_sku_item = [Compound ''li'' (Some ''sku-item'')]"

definition sel_sku_title :: "compound list" where
  "sel_sku_title = [Compound ''a'' None, Compound ''h4'' (Some ''sku-title'')]"

definition sel_product_image :: "compound list" where
  "sel_product_image = [Compound ''img'' (Some ''product-image'')]"

definition sel_hero_price :: "compound list" where
  "sel_hero_price = [Compound ''span'' None, Compound ''div'' (Some ''priceView-hero-price'')]"

text \<open>
  \<open>try: ... except Exception as e: raise HTTPException(status_code=500, detail=str(e))\<close>.
  \<open>HTTPException\<close> is itself a subclass of \<open>Exception\<close>, so the handler catches it too.
\<close>

definition except_Exception :: "'a io \<Rightarrow> 'a io" where
  "except_Exception body =
     (\<lambda>w. case body w of
             (Inl e, w') \<Rightarrow> (Inl (HTTPException 500 (str_exn e)), w')
           | (Inr x, w') \<Rightarrow> (Inr x, w'))"

definition raise_io :: "exn \<Rightarrow> 'a io" where
  "raise_io e = (\<lambda>w. (Inl e, w))"

definition lift_io :: "exn + 'a \<Rightarrow> 'a io" where
  "lift_io r = (\<lambda>w. (r, w))"

definition bind_exn :: "exn + 'a \<Rightarrow> ('a \<Rightarrow> exn + 'b) \<Rightarrow> exn + 'b" where
  "bind_exn r f = (case r of Inl e \<Rightarrow> Inl e | Inr x \<Rightarrow> f x)"

text \<open>
  \<open>BeautifulSoup(page_source, "html.parser")\<close>. The HTML parser is a parameter of the
  handlers: it gives the list of top-level nodes of the document, or the message with
  which it rejects the markup; \<open>BeautifulSoup\<close> then raises \<open>ParserRejectedMarkup\<close>, which
  the handlers catch like every other exception. The handlers return the list that
  the source wraps as \<open>{"categories": ...}\<close> or \<open>{"products": ...}\<close>.
\<close>

definition BeautifulSoup :: "(string \<Rightarrow> string + node list) \<Rightarrow> string \<Rightarrow> exn + node list" where
  "BeautifulSoup parser markup =
     (case parser markup of Inl msg \<Rightarrow> Inl (ParserRejectedMarkup msg) | Inr doc \<Rightarrow> Inr doc)"

text \<open>The loop of \<open>fetch_categories\<close>, lines 58 to 64.\<close>

fun categories_loop :: "element list \<Rightarrow> category list \<Rightarrow> exn + category list" where
  "categories_loop [] categories = Inr categories"
| "categories_loop (item # items) categories =
     (case find_tag ''a'' item of
        None \<Rightarrow> categories_loop items categories
      | Some category \<Rightarrow>
          (case getitem category ''href'' of
             Inl e \<Rightarrow> Inl e
           | Inr href \<Rightarrow>
               categories_loop items
                 (categories @ [\<lparr>category.name = get_text_strip category, url = BASE_URL @ href\<rparr>])))"

text \<open>Lines 57 to 64: parsing the page and running the loop.\<close>

definition extract_categories ::
  "(string \<Rightarrow> string + node list) \<Rightarrow> string \<Rightarrow> exn + category list" where
  "extract_categories parser page_source =
     bind_exn (BeautifulSoup parser page_source) (\<lambda>soup.
     categories_loop (soup_select sel_carousel_item soup) [])"

definition fetch_categories ::
  "(string \<Rightarrow> string + node list) \<Rightarrow> env \<Rightarrow> category list io" where
  "fetch_categories parser E =
     except_Exception
       (bind_io (fetch_page_source E BASE_URL) (\<lambda>page_source.
        lift_io (extract_categories parser page_source)))"

text \<open>The same loop as it stands in \<open>fetch_category_products\<close>, lines 87 to 93.\<close>

fun resolve_loop :: "element list \<Rightarrow> category list \<Rightarrow> exn + category list" where
  "resolve_loop [] categories = Inr categories"
| "resolve_loop (item # items) categories =
     (case find_tag ''a'' item of
        None \<Rightarrow> resolve_loop items categories
      | Some category \<Rightarrow>
          (case getitem category ''href'' of
             Inl e \<Rightarrow> Inl e
           | Inr href \<Rightarrow>
               resolve_loop items
                 (categories @ [\<lparr>category.name = get_text_strip category, url = BASE_URL @ href\<rparr>])))"

text \<open>Lines 86 to 93: parsing the page and running that loop.\<close>

definition resolve_categories ::
  "(string \<Rightarrow> string + node list) \<Rightarrow> string \<Rightarrow> exn + category list" where
  "resolve_categories parser page_source =
     bind_exn (BeautifulSoup parser page_source) (\<lambda>soup.
     resolve_loop (soup_select sel_carousel_item soup) [])"

text \<open>Line 96: the first category whose lowered name equals the lowered request.\<close>

definition match_category ::
  "(string \<Rightarrow> string) \<Rightarrow> category list \<Rightarrow> string \<Rightarrow> category option" where
  "match_category unicode_lower categories category_name =
     find (\<lambda>cat. lower unicode_lower (category.name cat) = lower unicode_lower category_name)
       categories"

definition not_found_detail :: "string \<Rightarrow> string" where
  "not_found_detail category_name = ''Category '' @ quote category_name @ '' not found.''"

text \<open>The product loop, lines 104 to 113.\<close>

fun products_loop :: "element list \<Rightarrow> product list \<Rightarrow> exn + product list" where
  "products_loop [] products = Inr products"
| "products_loop (item # items) products =
     (case (select_one sel_sku_title item, select_one sel_product_image item,
            select_one sel_hero_price item) of
        (Some name_tag, Some image_tag, Some price_tag) \<Rightarrow>
          (case getitem image_tag ''src'' of
             Inl e \<Rightarrow> Inl e
           | Inr src \<Rightarrow>
               products_loop items
                 (products @ [\<lparr>product.name = strip (text_of name_tag), photo = src,
                                price = strip (text_of price_tag)\<rparr>]))
      | _ \<Rightarrow> products_loop items products)"

text \<open>Lines 102 to 113: parsing the category page and running the product loop.\<close>

definition extract_products ::
  "(string \<Rightarrow> string + node list) \<Rightarrow> string \<Rightarrow> exn + product list" where
  "extract_products parser page_source =
     bind_exn (BeautifulSoup parser page_source) (\<lambda>soup.
     products_loop (soup_select sel_sku_item soup) [])"

text \<open>The body of the \<open>try\<close> in \<open>fetch_category_products\<close>, lines 84 to 114.\<close>

definition fetch_category_products_body ::
  "(string \<Rightarrow> string + node list) \<Rightarrow> (string \<Rightarrow> string) \<Rightarrow> env \<Rightarrow> string \<Rightarrow>
     product list io" where
  "fetch_category_products_body parser unicode_lower E category_name =
     bind_io (fetch_page_source E BASE_URL) (\<lambda>page_source.
     bind_io (lift_io (resolve_categories parser page_source)) (\<lambda>categories.
     (case match_category unicode_lower categories category_name of
        None \<Rightarrow> raise_io (HTTPException 404 (not_found_detail category_name))
      | Some category \<Rightarrow>
          bind_io (fetch_page_source E (url category)) (\<lambda>page_source.
          lift_io (extract_products parser page_source)))))"

definition fetch_category_products ::
  "(string \<Rightarrow> string + node list) \<Rightarrow> (string \<Rightarrow> string) \<Rightarrow> env \<Rightarrow> string \<Rightarrow>
     product list io" where
  "fetch_category_products parser unicode_lower E category_name =
     except_Exception (fetch_category_products_body parser unicode_lower E category_name)"

section \<open>Notions used to state the properties\<close>

subsection \<open>Category extraction\<close>

definition has_anchor :: "element \<Rightarrow> bool" where
  "has_anchor item = (find_tag ''a'' item \<noteq> None)"

text \<open>The record the loop appends for a carousel item whose anchor carries an \<open>href\<close>.\<close>

definition emits_category :: "element \<Rightarrow> category \<Rightarrow> bool" where
  "emits_category item cat =
     (case find_tag ''a'' item of
        None \<Rightarrow> False
      | Some a \<Rightarrow>
          (case getitem a ''href'' of
             Inl e \<Rightarrow> False
           | Inr href \<Rightarrow> cat = \<lparr>category.name = get_text_strip a, url = BASE_URL @ href\<rparr>))"

definition href_missing :: "element \<Rightarrow> bool" where
  "href_missing item =
     (case find_tag ''a'' item of
        None \<Rightarrow> False
      | Some a \<Rightarrow> (case getitem a ''href'' of Inl e \<Rightarrow> True | Inr href \<Rightarrow> False))"

text \<open>
  The specification's reading of a well-formed category URL: base and path with exactly one
  slash between them, whatever number of slashes the path starts with. \<open>BASE_URL\<close>
  does not end with a slash.
\<close>

definition spec_join_url :: "string \<Rightarrow> string \<Rightarrow> string" where
  "spec_join_url base path = base @ ''/'' @ dropWhile (\<lambda>c. c = CHR ''/'') path"

definition single_leading_slash :: "string \<Rightarrow> bool" where
  "single_leading_slash path =
     (case path of [] \<Rightarrow> False | c # rest \<Rightarrow> c = CHR ''/'' \<and> \<not> startswith rest ''/'')"

subsection \<open>Category resolution\<close>



subsection \<open>Product extraction\<close>

definition all_resolve :: "element \<Rightarrow> bool" where
  "all_resolve item =
     (select_one sel_sku_title item \<noteq> None \<and> select_one sel_product_image item \<noteq> None \<and>
      select_one sel_hero_price item \<noteq> None)"

definition emits_product :: "element \<Rightarrow> product \<Rightarrow> bool" where
  "emits_product item p =
     (case (select_one sel_sku_title item, select_one sel_product_image item,
            select_one sel_hero_price item) of
        (Some name_tag, Some image_tag, Some price_tag) \<Rightarrow>
          (case getitem image_tag ''src'' of
             Inl e \<Rightarrow> False
           | Inr src \<Rightarrow>
               p = \<lparr>product.name = strip (text_of name_tag), photo = src,
                     price = strip (text_of price_tag)\<rparr>)
      | _ \<Rightarrow> False)"

definition src_missing :: "element \<Rightarrow> bool" where
  "src_missing item =
     (all_resolve item \<and>
      (case select_one sel_product_image item of
         None \<Rightarrow> False
       | Some image_tag \<Rightarrow> (case getitem image_tag ''src'' of Inl e \<Rightarrow> True | Inr src \<Rightarrow> False)))"

subsection \<open>Traces\<close>

definition new_calls :: "world \<Rightarrow> world \<Rightarrow> call list" where
  "new_calls w w' = drop (length (trace w)) (trace w')"

definition interstitial_calls :: "bool \<Rightarrow> call list" where
  "interstitial_calls shown =
     (if shown then [Click ''a.us-link'', WaitForLoadState ''networkidle''] else [])"

text \<open>The markup the first \<open>page.content()\<close> of a fetch sees, if the fetch gets that far.\<close>

definition loaded_markup :: "env \<Rightarrow> string \<Rightarrow> world \<Rightarrow> string" where
  "loaded_markup E u w = rendered E (trace w @ [Start, Launch, NewPage, Goto u, Content])"

definition is_interaction :: "call \<Rightarrow> bool" where
  "is_interaction c = (case c of Click s \<Rightarrow> True | WaitForLoadState s \<Rightarrow> True | _ \<Rightarrow> False)"

definition session_closed :: "world \<Rightarrow> bool" where
  "session_closed w = (\<not> driver_running w \<and> \<not> browser_open w \<and> \<not> page_open w)"

text \<open>The URLs navigated to, and the number of times \<open>fetch_page_source\<close> was entered.\<close>

fun gotos :: "call list \<Rightarrow> string list" where
  "gotos [] = []"
| "gotos (Goto u # cs) = u # gotos cs"
| "gotos (c # cs) = gotos cs"

definition fetches :: "call list \<Rightarrow> nat" where
  "fetches t = length (filter (\<lambda>c. c = Start) t)"

section \<open>Sample pages\<close>

text \<open>
  A home page with three carousel items (the second without a link), a category page
  with two SKU items (the second without a price), and a browser in which every call
  succeeds. The markup strings stand for the pages; the parser maps them to their
  trees. It rejects the markup \<open><![x y]>\<close>, as \<open>html.parser\<close> does (an unknown keyword in
  a marked section). The wording of the rejection differs between versions of the
  library; the sample message stands for it.
\<close>

definition home_doc :: "node list" where
  "home_doc =
     [Tag ''ul'' []
        [Tag ''li'' [(''class'', ''c-carousel-item'')]
           [Tag ''a'' [(''href'', ''/site/laptops'')] [NavigableString '' Laptops '']],
         Tag ''li'' [(''class'', ''c-carousel-item'')] [NavigableString ''Deals''],
         Tag ''li'' [(''class'', ''wide c-carousel-item'')]
           [Tag ''a'' [(''href'', ''/site/tvs'')]
              [Tag ''b'' [] [NavigableString ''TVs '']]]]]"

definition laptops_doc :: "node list" where
  "laptops_doc =
     [Tag ''ol'' []
        [Tag ''li'' [(''class'', ''sku-item'')]
           [Tag ''h4'' [(''class'', ''sku-title'')]
              [Tag ''a'' [(''href'', ''/p/1'')] [NavigableString '' Book 14 '']],
            Tag ''img'' [(''class'', ''product-image''), (''src'', ''/img/1.jpg'')] [],
            Tag ''div'' [(''class'', ''priceView-hero-price'')]
              [Tag ''span'' [] [NavigableString ''$499.99 '']]],
         Tag ''li'' [(''class'', ''sku-item'')]
           [Tag ''h4'' [(''class'', ''sku-title'')]
              [Tag ''a'' [(''href'', ''/p/2'')] [NavigableString ''Book 16'']],
            Tag ''img'' [(''class'', ''product-image''), (''src'', ''/img/2.jpg'')] []]]]"

definition rejected_message :: string where
  "rejected_message = ''The markup you provided was rejected by the parser.''"

definition site_parser :: "string \<Rightarrow> string + node list" where
  "site_parser m =
     (if m = ''<home>'' then Inr home_doc
      else if m = ''<laptops>'' then Inr laptops_doc
      else if m = ''<![x y]>'' then Inl rejected_message
      else Inr [])"

text \<open>
  The names of the sample pages are ASCII, so the Unicode lowering is never asked; the
  samples pass the identity for it.
\<close>

definition no_unicode :: "string \<Rightarrow> string" where
  "no_unicode s = s"

text \<open>A site whose home page is the markup the parser rejects.\<close>

definition malformed_env :: env where
  "malformed_env = \<lparr>raises = (\<lambda>t. None), rendered = (\<lambda>t. ''<![x y]>'')\<rparr>"

definition site_env :: env where
  "site_env =
     \<lparr>raises = (\<lambda>t. None),
      rendered = (\<lambda>t. if Goto ''https://www.bestbuy.com/site/laptops'' \<in> set t
                        then ''<laptops>'' else ''<home>'')\<rparr>"

definition idle :: world where
  "idle = \<lparr>trace = [], driver_running = False, browser_open = False, page_open = False\<rparr>"

text \<open>The world after one complete fetch of the home page, and after the second fetch.\<close>

definition after_home :: world where
  "after_home =
     \<lparr>trace = [Start, Launch, NewPage, Goto ''https://www.bestbuy.com'', Content, Content,
               Close, Stop],
      driver_running = False, browser_open = False, page_open = False\<rparr>"

definition after_laptops :: world where
  "after_laptops =
     \<lparr>trace = [Start, Launch, NewPage, Goto ''https://www.bestbuy.com'', Content, Content,
               Close, Stop,
               Start, Launch, NewPage, Goto ''https://www.bestbuy.com/site/laptops'',
               Content, Content, Close, Stop],
      driver_running = False, browser_open = False, page_open = False\<rparr>"

definition laptops_cat :: category where
  "laptops_cat = \<lparr>category.name = ''Laptops'', url = ''https://www.bestbuy.com/site/laptops''\<rparr>"

definition tvs_cat :: category where
  "tvs_cat = \<lparr>category.name = ''TVs'', url = ''https://www.bestbuy.com/site/tvs''\<rparr>"

definition book14 :: product where
  "book14 = \<lparr>product.name = ''Book 14'', photo = ''/img/1.jpg'', price = ''$499.99''\<rparr>"

text \<open>A page without carousel items.\<close>

definition plain_doc :: "node list" where
  "plain_doc = [Tag ''p'' [(''class'', ''c-carousel'')] [NavigableString ''Welcome'']]"

text \<open>A carousel whose link has a path without a leading slash.\<close>

definition relative_doc :: "node list" where
  "relative_doc =
     [Tag ''li'' [(''class'', ''c-carousel-item'')]
        [Tag ''a'' [(''href'', ''site/tvs'')] [NavigableString ''TVs'']]]"

text \<open>A carousel whose link has no \<open>href\<close>, and a SKU item whose image has no \<open>src\<close>.\<close>

definition no_href_doc :: "node list" where
  "no_href_doc =
     [Tag ''li'' [(''class'', ''c-carousel-item'')]
        [Tag ''a'' [(''id'', ''menu'')] [NavigableString ''Menu'']]]"

definition no_src_doc :: "node list" where
  "no_src_doc =
     [Tag ''li'' [(''class'', ''sku-item'')]
        [Tag ''h4'' [(''class'', ''sku-title'')]
           [Tag ''a'' [(''href'', ''/p/3'')] [NavigableString ''Book 18'']],
         Tag ''img'' [(''class'', ''product-image''), (''data-src'', ''/img/3.jpg'')] [],
         Tag ''div'' [(''class'', ''priceView-hero-price'')]
           [Tag ''span'' [] [NavigableString ''$899.99'']]]]"

definition no_href_parser :: "string \<Rightarrow> string + node list" where
  "no_href_parser m = Inr no_href_doc"

definition no_src_parser :: "string \<Rightarrow> string + node list" where
  "no_src_parser m = (if m = ''<home>'' then Inr home_doc else Inr no_src_doc)"

text \<open>A site that first shows the country page, and a browser whose navigation fails.\<close>

definition gate_env :: env where
  "gate_env =
     \<lparr>raises = (\<lambda>t. None),
      rendered = (\<lambda>t. if Click ''a.us-link'' \<in> set t then ''<home>''
                        else ''<h1>Choose a country</h1>'')\<rparr>"

definition offline_env :: env where
  "offline_env =
     \<lparr>raises = (\<lambda>t. if t = [Start, Launch, NewPage, Goto ''https://www.bestbuy.com'']
                      then Some ''net::ERR_INTERNET_DISCONNECTED'' else None),
      rendered = (\<lambda>t. [])\<rparr>"

section \<open>Facts about the string functions\<close>

lemma startswith_prefix: "startswith s p = prefix p s"
  by (induction s p rule: startswith.induct) auto

lemma str_contains_sublist: "str_contains s sub = sublist sub s"
  by (induction s) (auto simp: startswith_prefix sublist_Cons_right)








section \<open>Category extraction\<close>

lemma categories_loop_acc:
  "categories_loop items acc = Inr cats \<Longrightarrow>
     \<exists>new. cats = acc @ new \<and> list_all2 emits_category (filter has_anchor items) new"
proof (induction items arbitrary: acc)
  case Nil
  then show ?case by simp
next
  case (Cons item items)
  show ?case
  proof (cases "find_tag ''a'' item")
    case None
    with Cons show ?thesis by (simp add: has_anchor_def)
  next
    case (Some a)
    show ?thesis
    proof (cases "getitem a ''href''")
      case (Inl e)
      with Some Cons.prems show ?thesis by simp
    next
      case (Inr href)
      let ?c = "\<lparr>category.name = get_text_strip a, url = BASE_URL @ href\<rparr>"
      from Some Inr Cons.prems have "categories_loop items (acc @ [?c]) = Inr cats" by simp
      from Cons.IH [OF this] obtain new where
        n: "cats = (acc @ [?c]) @ new" "list_all2 emits_category (filter has_anchor items) new"
        by blast
      have "emits_category item ?c" using Some Inr by (simp add: emits_category_def)
      moreover have "has_anchor item" using Some by (simp add: has_anchor_def)
      ultimately show ?thesis using n by simp
    qed
  qed
qed

lemma categories_loop_emits:
  "categories_loop items [] = Inr cats \<Longrightarrow>
     list_all2 emits_category (filter has_anchor items) cats"
  using categories_loop_acc [of items "[]" cats] by simp

lemma categories_loop_skip:
  "find_tag ''a'' item = None \<Longrightarrow>
     categories_loop (before @ item # after) acc = categories_loop (before @ after) acc"
  by (induction before arbitrary: acc) (auto split: option.splits sum.splits)

lemma categories_loop_href_missing:
  "\<exists>item \<in> set items. href_missing item \<Longrightarrow> categories_loop items acc = Inl (KeyError ''href'')"
proof (induction items arbitrary: acc)
  case Nil
  then show ?case by simp
next
  case (Cons item items)
  show ?case
  proof (cases "find_tag ''a'' item")
    case None
    then have "\<not> href_missing item" by (simp add: href_missing_def)
    with Cons.prems have "\<exists>i \<in> set items. href_missing i" by simp
    from Cons.IH [OF this] None show ?thesis by simp
  next
    case (Some a)
    show ?thesis
    proof (cases "getitem a ''href''")
      case (Inl e)
      then have "e = KeyError ''href''"
        by (auto simp: getitem_def split: node.splits option.splits)
      with Some Inl show ?thesis by simp
    next
      case (Inr href)
      with Some have "\<not> href_missing item" by (simp add: href_missing_def)
      with Cons.prems have "\<exists>i \<in> set items. href_missing i" by simp
      from Cons.IH [OF this] Some Inr show ?thesis by simp
    qed
  qed
qed

lemma resolve_loop_categories_loop: "resolve_loop items acc = categories_loop items acc"
  by (induction items arbitrary: acc) (auto split: option.splits sum.splits)

lemma extract_categories_parsed:
  "parser m = Inr doc \<Longrightarrow>
     extract_categories parser m = categories_loop (soup_select sel_carousel_item doc) []"
  by (simp add: extract_categories_def bind_exn_def BeautifulSoup_def)

lemma resolve_categories_extract_categories:
  "resolve_categories parser m = extract_categories parser m"
  by (simp add: resolve_categories_def extract_categories_def resolve_loop_categories_loop)

lemma fetch_categories_unfold:
  "fetch_page_source E BASE_URL w = (Inr m, w') \<Longrightarrow>
     fetch_categories parser E w =
       (case extract_categories parser m of
          Inl e \<Rightarrow> (Inl (HTTPException 500 (str_exn e)), w')
        | Inr cats \<Rightarrow> (Inr cats, w'))"
  by (simp add: fetch_categories_def except_Exception_def bind_io_def lift_io_def
      split: sum.splits)

lemma sample_categories:
  "categories_loop (soup_select sel_carousel_item home_doc) [] = Inr [laptops_cat, tvs_cat]"
  by code_simp

lemma sample_home_fetch: "fetch_page_source site_env BASE_URL idle = (Inr ''<home>'', after_home)"
  by code_simp

text \<open>
  Claim C5, as stated, fails: the markup \<open><![x y]>\<close> contains no carousel-item list
  element, the parser rejects it, and the category extraction does not return the
  empty list: it raises, and \<open>fetch_categories\<close> answers with status 500.
\<close>

theorem rejected_markup_fails_extraction:
  "\<not> str_contains ''<![x y]>'' ''c-carousel-item''
   \<and> fetch_page_source malformed_env BASE_URL idle = (Inr ''<![x y]>'', after_home)
   \<and> extract_categories site_parser ''<![x y]>'' = Inl (ParserRejectedMarkup rejected_message)
   \<and> fetch_categories site_parser malformed_env idle =
       (Inl (HTTPException 500 rejected_message), after_home)"
  by code_simp

text \<open>
  Claim C5, amended. For every markup that the HTML parser accepts and whose document
  has no carousel-item list elements, the category extraction returns the empty list,
  and \<open>fetch_categories\<close> returns it without failing once the page is fetched. A
  carousel item without an anchor is skipped: the loop gives the same result with and
  without it. The emitted categories are, one for one and in document order, the
  records of the carousel items that have an anchor; nothing is removed or reordered.
\<close>

theorem category_extraction_safe_and_ordered:
  "(parser m = Inr doc \<and> soup_select sel_carousel_item doc = [] \<longrightarrow>
      extract_categories parser m = Inr [])
   \<and> (fetch_page_source E BASE_URL w = (Inr m, w') \<and> parser m = Inr doc \<and>
        soup_select sel_carousel_item doc = [] \<longrightarrow>
      fetch_categories parser E w = (Inr [], w'))
   \<and> (find_tag ''a'' item = None \<longrightarrow>
        categories_loop (before @ item # after) acc = categories_loop (before @ after) acc)
   \<and> (categories_loop (soup_select sel_carousel_item doc') [] = Inr cats \<longrightarrow>
        list_all2 emits_category (filter has_anchor (soup_select sel_carousel_item doc')) cats)"
proof (intro conjI impI)
  assume "parser m = Inr doc \<and> soup_select sel_carousel_item doc = []"
  then show "extract_categories parser m = Inr []"
    by (simp add: extract_categories_parsed)
next
  assume "fetch_page_source E BASE_URL w = (Inr m, w') \<and> parser m = Inr doc \<and>
          soup_select sel_carousel_item doc = []"
  then show "fetch_categories parser E w = (Inr [], w')"
    by (simp add: fetch_categories_unfold extract_categories_parsed)
next
  assume "find_tag ''a'' item = None"
  then show "categories_loop (before @ item # after) acc = categories_loop (before @ after) acc"
    by (rule categories_loop_skip)
next
  assume "categories_loop (soup_select sel_carousel_item doc') [] = Inr cats"
  then show "list_all2 emits_category (filter has_anchor (soup_select sel_carousel_item doc')) cats"
    by (rule categories_loop_emits)
qed

theorem category_extraction_safe_and_ordered_witness:
  "extract_categories (\<lambda>m. Inr plain_doc) ''<home>'' = Inr []
   \<and> fetch_categories (\<lambda>m. Inr plain_doc) site_env idle = (Inr [], after_home)
   \<and> categories_loop
        ([([], Tag ''li'' [] [Tag ''a'' [(''href'', ''/a'')] []])]
           @ ([], Tag ''li'' [] [NavigableString ''Deals''])
           # [([], Tag ''li'' [] [Tag ''a'' [(''href'', ''/b'')] []])]) []
      = categories_loop
        ([([], Tag ''li'' [] [Tag ''a'' [(''href'', ''/a'')] []])]
           @ [([], Tag ''li'' [] [Tag ''a'' [(''href'', ''/b'')] []])]) []
   \<and> list_all2 emits_category (filter has_anchor (soup_select sel_carousel_item home_doc))
        [laptops_cat, tvs_cat]"
proof -
  have a: "soup_select sel_carousel_item plain_doc = []" by code_simp
  have b: "fetch_page_source site_env BASE_URL idle = (Inr ''<home>'', after_home)"
    by (rule sample_home_fetch)
  have c: "find_tag ''a'' ([], Tag ''li'' [] [NavigableString ''Deals'']) = None" by code_simp
  have d: "categories_loop (soup_select sel_carousel_item home_doc) [] = Inr [laptops_cat, tvs_cat]"
    by (rule sample_categories)
  show ?thesis
    using a b c d
      category_extraction_safe_and_ordered
        [where parser = "\<lambda>m. Inr plain_doc" and m = "''<home>''" and doc = plain_doc
           and E = site_env and w = idle and w' = after_home
           and item = "([], Tag ''li'' [] [NavigableString ''Deals''])"
           and before = "[([], Tag ''li'' [] [Tag ''a'' [(''href'', ''/a'')] []])]"
           and after = "[([], Tag ''li'' [] [Tag ''a'' [(''href'', ''/b'')] []])]"
           and acc = "[]" and doc' = home_doc and cats = "[laptops_cat, tvs_cat]"]
    by simp
qed

text \<open>
  Claim C9. For every markup, the extraction inlined in \<open>fetch_category_products\<close>
  (lines 86 to 93) yields the same result as the extraction of \<open>fetch_categories\<close>
  (lines 57 to 64) on the same markup: the same list of category records, or the same
  exception.
\<close>

theorem inlined_extraction_same_as_fetch_categories:
  "resolve_categories parser m = extract_categories parser m"
  by (rule resolve_categories_extract_categories)

theorem inlined_extraction_same_as_fetch_categories_witness:
  "resolve_categories site_parser ''<home>'' = Inr [laptops_cat, tvs_cat]"
proof -
  have "extract_categories site_parser ''<home>'' = Inr [laptops_cat, tvs_cat]"
    by code_simp
  with inlined_extraction_same_as_fetch_categories [of site_parser "''<home>''"]
  show ?thesis by simp
qed

lemma startswith_slash: "startswith rest ''/'' \<longleftrightarrow> rest \<noteq> [] \<and> hd rest = CHR ''/''"
  by (cases rest) auto

lemma concat_is_join_iff:
  "base @ href = spec_join_url base href \<longleftrightarrow> single_leading_slash href"
proof (cases href)
  case Nil
  then show ?thesis by (simp add: spec_join_url_def single_leading_slash_def)
next
  case (Cons c rest)
  show ?thesis
  proof (cases "c = CHR ''/''")
    case True
    have "dropWhile (\<lambda>c. c = CHR ''/'') rest = rest \<longleftrightarrow> rest = [] \<or> hd rest \<noteq> CHR ''/''"
      by (rule dropWhile_eq_self_iff)
    then have "rest = dropWhile (\<lambda>c. c = CHR ''/'') rest \<longleftrightarrow> \<not> startswith rest ''/''"
      by (auto simp: startswith_slash)
    with Cons True show ?thesis
      by (simp add: spec_join_url_def single_leading_slash_def)
  next
    case False
    with Cons show ?thesis
      by (simp add: spec_join_url_def single_leading_slash_def)
  qed
qed

lemma emits_category_url:
  assumes "emits_category item cat"
  shows "\<exists>a href. find_tag ''a'' item = Some a \<and> getitem a ''href'' = Inr href \<and>
           url cat = BASE_URL @ href \<and>
           (url cat = spec_join_url BASE_URL href \<longleftrightarrow> single_leading_slash href)"
proof -
  from assms obtain a href where
    h: "find_tag ''a'' item = Some a" "getitem a ''href'' = Inr href"
       "cat = \<lparr>category.name = get_text_strip a, url = BASE_URL @ href\<rparr>"
    by (auto simp: emits_category_def split: option.splits sum.splits)
  then have "url cat = BASE_URL @ href" by simp
  with h concat_is_join_iff [of BASE_URL href] show ?thesis by auto
qed

text \<open>
  Claim C3, as stated, fails: the link path \<open>site/tvs\<close> has no leading slash, and the
  emitted URL is \<open>https://www.bestbuy.comsite/tvs\<close>, with no separator between base and
  path.
\<close>

theorem category_url_missing_separator:
  "categories_loop (soup_select sel_carousel_item relative_doc) [] =
     Inr [\<lparr>category.name = ''TVs'', url = ''https://www.bestbuy.comsite/tvs''\<rparr>]
   \<and> spec_join_url BASE_URL ''site/tvs'' = ''https://www.bestbuy.com/site/tvs''
   \<and> ''https://www.bestbuy.comsite/tvs'' \<noteq> spec_join_url BASE_URL ''site/tvs''"
  by code_simp

text \<open>
  Claim C3, amended. Every emitted category URL is \<open>BASE_URL\<close> followed by the scraped
  \<open>href\<close> exactly as it stands in the markup. It is the base joined to the path with
  exactly one separator if and only if the path starts with exactly one slash.
\<close>

theorem category_url_is_plain_concatenation:
  "categories_loop items [] = Inr cats \<Longrightarrow>
     list_all2
       (\<lambda>item cat. \<exists>a href. find_tag ''a'' item = Some a \<and> getitem a ''href'' = Inr href \<and>
          url cat = BASE_URL @ href \<and>
          (url cat = spec_join_url BASE_URL href \<longleftrightarrow> single_leading_slash href))
       (filter has_anchor items) cats"
proof -
  assume "categories_loop items [] = Inr cats"
  then have "list_all2 emits_category (filter has_anchor items) cats"
    by (rule categories_loop_emits)
  then show ?thesis
    by (rule list_all2_mono) (rule emits_category_url)
qed

theorem category_url_is_plain_concatenation_witness:
  "categories_loop (soup_select sel_carousel_item home_doc) [] = Inr [laptops_cat, tvs_cat]
   \<and> list_all2
       (\<lambda>item cat. \<exists>a href. find_tag ''a'' item = Some a \<and> getitem a ''href'' = Inr href \<and>
          url cat = BASE_URL @ href \<and>
          (url cat = spec_join_url BASE_URL href \<longleftrightarrow> single_leading_slash href))
       (filter has_anchor (soup_select sel_carousel_item home_doc)) [laptops_cat, tvs_cat]"
  using sample_categories category_url_is_plain_concatenation [OF sample_categories]
  by simp

section \<open>Category resolution\<close>









section \<open>fetch_page_source\<close>

lemmas io_defs =
  bind_io_def return_io_def playwright_call_def page_content_def async_with_exit_def
  log_call_def

lemma fetch_page_source_success:
  assumes "fetch_page_source E u w = (Inr content, w')"
  shows "new_calls w w' =
           [Start, Launch, NewPage, Goto u, Content]
           @ interstitial_calls (str_contains (loaded_markup E u w) ''Choose a country'')
           @ [Content, Close, Stop]"
    and "content =
           rendered E (trace w @ [Start, Launch, NewPage, Goto u, Content]
             @ interstitial_calls (str_contains (loaded_markup E u w) ''Choose a country'')
             @ [Content])"
  using assms
  unfolding fetch_page_source_def fetch_page_source_block_def io_defs interstitial_calls_def
    loaded_markup_def new_calls_def
  by (auto split: option.splits if_splits)

lemma fetch_page_source_interactions:
  assumes "fetch_page_source E u w = (r, w')"
  shows "prefix (filter is_interaction (new_calls w w'))
           (interstitial_calls (str_contains (loaded_markup E u w) ''Choose a country''))"
  using assms
  unfolding fetch_page_source_def fetch_page_source_block_def io_defs interstitial_calls_def
    loaded_markup_def new_calls_def
  by (auto simp: is_interaction_def split: option.splits if_splits)

lemma fetch_page_source_closed:
  assumes "session_closed w" "fetch_page_source E u w = (r, w')"
  shows "session_closed w'"
  using assms
  unfolding fetch_page_source_def fetch_page_source_block_def io_defs session_closed_def
  by (auto split: option.splits if_splits)

lemma fetch_page_source_launch_stop:
  assumes "fetch_page_source E u w = (r, w')" "Launch \<in> set (new_calls w w')"
  shows "last (trace w') = Stop \<and> session_closed w'"
  using assms
  unfolding fetch_page_source_def fetch_page_source_block_def io_defs new_calls_def
    session_closed_def
  by (auto split: option.splits if_splits)

lemma fetch_page_source_trace:
  assumes "fetch_page_source E u w = (r, w')"
  shows "\<exists>t. trace w' = trace w @ t \<and> fetches t = 1 \<and>
           (case r of Inr c \<Rightarrow> gotos t = [u] | Inl e \<Rightarrow> (\<exists>msg. e = PlaywrightError msg))"
  using assms
  unfolding fetch_page_source_def fetch_page_source_block_def io_defs fetches_def
  by (auto split: option.splits if_splits)

text \<open>
  Claim C6. When \<open>fetch_page_source\<close> returns, its calls to the browser are: start,
  launch, new page, goto, content; then, if the loaded content contains
  \<open>Choose a country\<close>, one click on \<open>a.us-link\<close> followed by one wait for
  \<open>networkidle\<close>, and otherwise nothing; then the content call whose markup is returned,
  close and stop. On every run, returning or raising, the clicks and waits made are
  an initial part of that one click and one wait, and there are none when the text is
  absent.
\<close>

theorem country_interstitial_one_interaction:
  "fetch_page_source E u w = (r, w') \<Longrightarrow>
     prefix (filter is_interaction (new_calls w w'))
       (interstitial_calls (str_contains (loaded_markup E u w) ''Choose a country''))
     \<and> (\<not> str_contains (loaded_markup E u w) ''Choose a country'' \<longrightarrow>
          filter is_interaction (new_calls w w') = [])
     \<and> (\<forall>content. r = Inr content \<longrightarrow>
          new_calls w w' =
            [Start, Launch, NewPage, Goto u, Content]
            @ interstitial_calls (str_contains (loaded_markup E u w) ''Choose a country'')
            @ [Content, Close, Stop]
          \<and> content =
            rendered E (trace w @ [Start, Launch, NewPage, Goto u, Content]
              @ interstitial_calls (str_contains (loaded_markup E u w) ''Choose a country'')
              @ [Content]))"
proof -
  assume run: "fetch_page_source E u w = (r, w')"
  let ?shown = "str_contains (loaded_markup E u w) ''Choose a country''"
  have p: "prefix (filter is_interaction (new_calls w w')) (interstitial_calls ?shown)"
    using run by (rule fetch_page_source_interactions)
  then have "\<not> ?shown \<longrightarrow> filter is_interaction (new_calls w w') = []"
    by (auto simp: interstitial_calls_def)
  with p run show ?thesis
    using fetch_page_source_success [of E u w _ w'] by blast
qed

theorem country_interstitial_one_interaction_witness:
  "str_contains (loaded_markup gate_env BASE_URL idle) ''Choose a country''
   \<and> fetch_page_source gate_env BASE_URL idle = (Inr ''<home>'', after_home\<lparr>trace :=
        [Start, Launch, NewPage, Goto BASE_URL, Content, Click ''a.us-link'',
         WaitForLoadState ''networkidle'', Content, Close, Stop]\<rparr>)
   \<and> new_calls idle (after_home\<lparr>trace :=
        [Start, Launch, NewPage, Goto BASE_URL, Content, Click ''a.us-link'',
         WaitForLoadState ''networkidle'', Content, Close, Stop]\<rparr>) =
        [Start, Launch, NewPage, Goto BASE_URL, Content]
        @ [Click ''a.us-link'', WaitForLoadState ''networkidle'']
        @ [Content, Close, Stop]
   \<and> \<not> str_contains (loaded_markup site_env BASE_URL idle) ''Choose a country''
   \<and> fetch_page_source site_env BASE_URL idle = (Inr ''<home>'', after_home)
   \<and> filter is_interaction (new_calls idle after_home) = []"
proof -
  have a: "str_contains (loaded_markup gate_env BASE_URL idle) ''Choose a country''"
    by code_simp
  have b: "fetch_page_source gate_env BASE_URL idle = (Inr ''<home>'', after_home\<lparr>trace :=
        [Start, Launch, NewPage, Goto BASE_URL, Content, Click ''a.us-link'',
         WaitForLoadState ''networkidle'', Content, Close, Stop]\<rparr>)"
    by code_simp
  have c: "\<not> str_contains (loaded_markup site_env BASE_URL idle) ''Choose a country''"
    by code_simp
  note T = country_interstitial_one_interaction
  from T [OF b] a have
    "new_calls idle (after_home\<lparr>trace :=
        [Start, Launch, NewPage, Goto BASE_URL, Content, Click ''a.us-link'',
         WaitForLoadState ''networkidle'', Content, Close, Stop]\<rparr>) =
        [Start, Launch, NewPage, Goto BASE_URL, Content]
        @ [Click ''a.us-link'', WaitForLoadState ''networkidle'']
        @ [Content, Close, Stop]"
    by (simp add: interstitial_calls_def)
  moreover from T [OF sample_home_fetch] c have
    "filter is_interaction (new_calls idle after_home) = []"
    by blast
  ultimately show ?thesis using a b c sample_home_fetch by blast
qed

text \<open>
  Claim C7. Whatever the browser and the site do, once \<open>fetch_page_source\<close> has launched
  a browser the last thing it does before control leaves it, by return or by
  exception, is to stop Playwright, and neither the browser nor its page is open any
  more; a call entered with no session open leaves none open. On the way out by
  exception \<open>browser.close()\<close> is not reached, and the session is closed by leaving the
  \<open>async with\<close> block.
\<close>

theorem browser_session_closed_on_every_path:
  "fetch_page_source E u w = (r, w') \<Longrightarrow>
     (session_closed w \<longrightarrow> session_closed w')
     \<and> (Launch \<in> set (new_calls w w') \<longrightarrow> last (trace w') = Stop \<and> session_closed w')"
  using fetch_page_source_closed [of w E u r w'] fetch_page_source_launch_stop [of E u w r w']
  by blast

theorem browser_session_closed_on_every_path_witness:
  "fetch_page_source offline_env ''https://www.bestbuy.com'' idle =
     (Inl (PlaywrightError ''net::ERR_INTERNET_DISCONNECTED''),
      idle\<lparr>trace := [Start, Launch, NewPage, Goto ''https://www.bestbuy.com'', Stop]\<rparr>)
   \<and> session_closed idle
   \<and> Launch \<in> set (new_calls idle
        (idle\<lparr>trace := [Start, Launch, NewPage, Goto ''https://www.bestbuy.com'', Stop]\<rparr>))
   \<and> session_closed
        (idle\<lparr>trace := [Start, Launch, NewPage, Goto ''https://www.bestbuy.com'', Stop]\<rparr>)
   \<and> last (trace
        (idle\<lparr>trace := [Start, Launch, NewPage, Goto ''https://www.bestbuy.com'', Stop]\<rparr>))
       = Stop"
proof -
  let ?w' = "idle\<lparr>trace := [Start, Launch, NewPage, Goto ''https://www.bestbuy.com'', Stop]\<rparr>"
  have a: "fetch_page_source offline_env ''https://www.bestbuy.com'' idle =
     (Inl (PlaywrightError ''net::ERR_INTERNET_DISCONNECTED''), ?w')"
    by code_simp
  have b: "session_closed idle" by code_simp
  have c: "Launch \<in> set (new_calls idle ?w')" by code_simp
  from browser_session_closed_on_every_path [OF a] b c
  have "session_closed ?w' \<and> last (trace ?w') = Stop" by blast
  with a b c show ?thesis by blast
qed

section \<open>fetch_category_products\<close>

lemma resolve_loop_error: "resolve_loop items acc = Inl e \<Longrightarrow> e = KeyError ''href''"
  by (induction items arbitrary: acc)
    (auto simp: getitem_def split: option.splits sum.splits node.splits)

lemma products_loop_error: "products_loop items acc = Inl e \<Longrightarrow> e = KeyError ''src''"
  by (induction items arbitrary: acc)
    (auto simp: getitem_def split: option.splits sum.splits node.splits)

lemma new_calls_append: "trace w' = trace w @ t \<Longrightarrow> new_calls w w' = t"
  by (simp add: new_calls_def)

lemma gotos_append: "gotos (s @ t) = gotos s @ gotos t"
  by (induction s rule: gotos.induct) auto

lemma fetches_append: "fetches (s @ t) = fetches s + fetches t"
  by (simp add: fetches_def)

lemma resolve_categories_error:
  "resolve_categories parser m = Inl e \<Longrightarrow>
     e = KeyError ''href'' \<or> (\<exists>msg. e = ParserRejectedMarkup msg)"
  by (auto simp: resolve_categories_def bind_exn_def BeautifulSoup_def
      split: sum.splits dest: resolve_loop_error)

lemma extract_products_error:
  "extract_products parser m = Inl e \<Longrightarrow>
     e = KeyError ''src'' \<or> (\<exists>msg. e = ParserRejectedMarkup msg)"
  by (auto simp: extract_products_def bind_exn_def BeautifulSoup_def
      split: sum.splits dest: products_loop_error)

lemma extract_products_parsed:
  "parser m = Inr doc \<Longrightarrow>
     extract_products parser m = products_loop (soup_select sel_sku_item doc) []"
  by (simp add: extract_products_def bind_exn_def BeautifulSoup_def)

lemma body_returns:
  assumes "fetch_category_products_body parser U E q w = (Inr products, w')"
  shows "\<exists>m cats c w1 m2.
           fetch_page_source E BASE_URL w = (Inr m, w1) \<and>
           resolve_categories parser m = Inr cats \<and>
           match_category U cats q = Some c \<and>
           fetch_page_source E (url c) w1 = (Inr m2, w') \<and>
           extract_products parser m2 = Inr products"
  using assms
  unfolding fetch_category_products_body_def bind_io_def lift_io_def raise_io_def
  by (auto split: prod.splits sum.splits option.splits)

lemma body_not_found:
  assumes "fetch_category_products_body parser U E q w = (Inl (HTTPException code d), w')"
  shows "\<exists>m cats.
           fetch_page_source E BASE_URL w = (Inr m, w') \<and>
           resolve_categories parser m = Inr cats \<and>
           match_category U cats q = None \<and> code = 404 \<and> d = not_found_detail q"
  using assms
  unfolding fetch_category_products_body_def bind_io_def lift_io_def raise_io_def
  by (auto split: prod.splits sum.splits option.splits
      dest: resolve_categories_error extract_products_error fetch_page_source_trace)

lemma handler_returns:
  "fetch_category_products parser U E q w = (Inr products, w') \<longleftrightarrow>
   fetch_category_products_body parser U E q w = (Inr products, w')"
  unfolding fetch_category_products_def except_Exception_def
  by (auto split: prod.splits sum.splits)

lemma handler_failure_status:
  "fetch_category_products parser U E q w = (Inl e, w') \<Longrightarrow> \<exists>d. e = HTTPException 500 d"
  unfolding fetch_category_products_def except_Exception_def
  by (auto split: prod.splits sum.splits)

lemma two_fetches:
  assumes "fetch_page_source E u1 w = (Inr m1, w1)" "fetch_page_source E u2 w1 = (Inr m2, w2)"
  shows "fetches (new_calls w w2) = 2 \<and> gotos (new_calls w w2) = [u1, u2]"
proof -
  from fetch_page_source_trace [OF assms(1)] obtain t1 where
    t1: "trace w1 = trace w @ t1" "fetches t1 = 1" "gotos t1 = [u1]" by auto
  from fetch_page_source_trace [OF assms(2)] obtain t2 where
    t2: "trace w2 = trace w1 @ t2" "fetches t2 = 1" "gotos t2 = [u2]" by auto
  from t1 t2 have "new_calls w w2 = t1 @ t2" by (simp add: new_calls_def)
  with t1 t2 show ?thesis by (simp add: fetches_append gotos_append)
qed

lemma one_fetch:
  assumes "fetch_page_source E u1 w = (Inr m1, w1)"
  shows "fetches (new_calls w w1) = 1 \<and> gotos (new_calls w w1) = [u1]"
proof -
  from fetch_page_source_trace [OF assms] obtain t1 where
    t1: "trace w1 = trace w @ t1" "fetches t1 = 1" "gotos t1 = [u1]" by auto
  then have "new_calls w w1 = t1" by (simp add: new_calls_def)
  with t1 show ?thesis by simp
qed

text \<open>
  Claim C8. Every invocation of \<open>fetch_category_products\<close> that returns products has
  entered \<open>fetch_page_source\<close> exactly twice, navigating first to the home URL and then
  to the URL of the category matched on the page just fetched; nothing is remembered
  between the two. An invocation whose body raises the not-found exception has entered
  it exactly once, for the home URL.
\<close>

theorem category_products_page_fetches:
  "(fetch_category_products parser U E q w = (Inr products, w') \<longrightarrow>
      fetches (new_calls w w') = 2
      \<and> (\<exists>m cats c w1.
            fetch_page_source E BASE_URL w = (Inr m, w1) \<and>
            resolve_categories parser m = Inr cats \<and>
            match_category U cats q = Some c \<and>
            gotos (new_calls w w') = [BASE_URL, url c]))
   \<and> (fetch_category_products_body parser U E q w = (Inl (HTTPException 404 d), w') \<longrightarrow>
        fetches (new_calls w w') = 1 \<and> gotos (new_calls w w') = [BASE_URL])"
proof (intro conjI impI)
  assume "fetch_category_products parser U E q w = (Inr products, w')"
  then have "fetch_category_products_body parser U E q w = (Inr products, w')"
    by (simp add: handler_returns)
  from body_returns [OF this] obtain m cats c w1 m2 where
    h: "fetch_page_source E BASE_URL w = (Inr m, w1)"
       "resolve_categories parser m = Inr cats"
       "match_category U cats q = Some c"
       "fetch_page_source E (url c) w1 = (Inr m2, w')"
    by blast
  from two_fetches [OF h(1) h(4)] have
    f: "fetches (new_calls w w') = 2" "gotos (new_calls w w') = [BASE_URL, url c]"
    by simp_all
  from f(1) show "fetches (new_calls w w') = 2" .
  from h f(2) show "\<exists>m cats c w1.
            fetch_page_source E BASE_URL w = (Inr m, w1) \<and>
            resolve_categories parser m = Inr cats \<and>
            match_category U cats q = Some c \<and>
            gotos (new_calls w w') = [BASE_URL, url c]"
    by blast
next
  assume "fetch_category_products_body parser U E q w = (Inl (HTTPException 404 d), w')"
  from body_not_found [OF this] obtain m where
    "fetch_page_source E BASE_URL w = (Inr m, w')" by blast
  from one_fetch [OF this]
  have g: "fetches (new_calls w w') = 1 \<and> gotos (new_calls w w') = [BASE_URL]" .
  from g show "fetches (new_calls w w') = 1" by simp
  from g show "gotos (new_calls w w') = [BASE_URL]" by simp
qed

theorem category_products_page_fetches_witness:
  "fetch_category_products site_parser no_unicode site_env ''LAPTOPS'' idle =
     (Inr [book14], after_laptops)
   \<and> fetches (new_calls idle after_laptops) = 2
   \<and> fetch_category_products_body site_parser no_unicode site_env ''Phones'' idle =
       (Inl (HTTPException 404 (not_found_detail ''Phones'')), after_home)
   \<and> fetches (new_calls idle after_home) = 1
   \<and> gotos (new_calls idle after_home) = [BASE_URL]"
proof -
  have a: "fetch_category_products site_parser no_unicode site_env ''LAPTOPS'' idle =
             (Inr [book14], after_laptops)"
    by code_simp
  have b: "fetch_category_products_body site_parser no_unicode site_env ''Phones'' idle =
             (Inl (HTTPException 404 (not_found_detail ''Phones'')), after_home)"
    by code_simp
  note T = category_products_page_fetches
  from a T [of site_parser no_unicode site_env "''LAPTOPS''" idle "[book14]" after_laptops]
  have "fetches (new_calls idle after_laptops) = 2" by blast
  moreover from b
    T [of site_parser no_unicode site_env "''Phones''" idle _ after_home
         "not_found_detail ''Phones''"]
  have "fetches (new_calls idle after_home) = 1 \<and> gotos (new_calls idle after_home) = [BASE_URL]"
    by blast
  ultimately show ?thesis using a b by blast
qed

lemma str_nat_404: "str_nat 404 = ''404''"
  by code_simp

lemma no_match_gives_500:
  assumes "fetch_page_source E BASE_URL w = (Inr m, w1)"
    and "resolve_categories parser m = Inr cats"
    and "match_category U cats q = None"
  shows "fetch_category_products_body parser U E q w =
           (Inl (HTTPException 404 (not_found_detail q)), w1)"
    and "fetch_category_products parser U E q w =
           (Inl (HTTPException 500 (''404: '' @ not_found_detail q)), w1)"
  using assms
  by (simp_all add: fetch_category_products_def fetch_category_products_body_def
      except_Exception_def bind_io_def lift_io_def raise_io_def str_nat_404)

text \<open>
  Claim C1 does not hold of the code. With the sample home page (categories Laptops
  and TVs) and every browser call succeeding, a request for \<open>Phones\<close> matches no
  category. The body raises \<open>HTTPException(404)\<close> naming \<open>Phones\<close>, but the handler's own
  \<open>except Exception\<close> catches it, and the response is status 500 with the text of the
  404 exception as detail. The same happens for every request that matches no category
  (\<open>no_match_gives_500\<close>), and no failure of the handler has another status than 500
  (\<open>handler_failure_status\<close>).
\<close>

theorem not_found_reported_as_500:
  "match_category no_unicode [laptops_cat, tvs_cat] ''Phones'' = None
   \<and> fetch_category_products_body site_parser no_unicode site_env ''Phones'' idle =
       (Inl (HTTPException 404 (''Category '' @ quote ''Phones'' @ '' not found.'')), after_home)
   \<and> fetch_category_products site_parser no_unicode site_env ''Phones'' idle =
       (Inl (HTTPException 500 (''404: Category '' @ quote ''Phones'' @ '' not found.'')),
        after_home)"
  by code_simp

section \<open>Product extraction\<close>

lemma products_loop_step_skip:
  "\<not> all_resolve item \<Longrightarrow> products_loop (item # items) acc = products_loop items acc"
  by (auto simp: all_resolve_def split: option.splits)

lemma products_loop_step_emit:
  assumes "select_one sel_sku_title item = Some name_tag"
    and "select_one sel_product_image item = Some image_tag"
    and "select_one sel_hero_price item = Some price_tag"
  shows "products_loop (item # items) acc =
           (case getitem image_tag ''src'' of
              Inl e \<Rightarrow> Inl e
            | Inr src \<Rightarrow>
                products_loop items
                  (acc @ [\<lparr>product.name = strip (text_of name_tag), photo = src,
                           price = strip (text_of price_tag)\<rparr>]))"
  using assms by simp

lemma all_resolve_parts:
  assumes "all_resolve item"
  obtains name_tag image_tag price_tag where
    "select_one sel_sku_title item = Some name_tag"
    "select_one sel_product_image item = Some image_tag"
    "select_one sel_hero_price item = Some price_tag"
  using assms by (auto simp: all_resolve_def)

lemma products_loop_acc:
  "products_loop items acc = Inr ps \<Longrightarrow>
     \<exists>new. ps = acc @ new \<and> list_all2 emits_product (filter all_resolve items) new"
proof (induction items arbitrary: acc)
  case Nil
  then show ?case by simp
next
  case (Cons item items)
  show ?case
  proof (cases "all_resolve item")
    case False
    from Cons.prems have "products_loop items acc = Inr ps"
      unfolding products_loop_step_skip [OF False] .
    from Cons.IH [OF this] False show ?thesis by simp
  next
    case True
    then obtain name_tag image_tag price_tag where
      parts: "select_one sel_sku_title item = Some name_tag"
        "select_one sel_product_image item = Some image_tag"
        "select_one sel_hero_price item = Some price_tag"
      by (rule all_resolve_parts)
    note step = products_loop_step_emit [OF parts, of items acc]
    show ?thesis
    proof (cases "getitem image_tag ''src''")
      case (Inl e)
      with step Cons.prems show ?thesis by simp
    next
      case (Inr src)
      let ?p = "\<lparr>product.name = strip (text_of name_tag), photo = src,
                 price = strip (text_of price_tag)\<rparr>"
      from step Inr Cons.prems have "products_loop items (acc @ [?p]) = Inr ps" by simp
      from Cons.IH [OF this] obtain new where
        n: "ps = (acc @ [?p]) @ new" "list_all2 emits_product (filter all_resolve items) new"
        by blast
      have "emits_product item ?p" using parts Inr by (simp add: emits_product_def)
      with n True show ?thesis by simp
    qed
  qed
qed

lemma products_loop_emits:
  "products_loop items [] = Inr ps \<Longrightarrow> list_all2 emits_product (filter all_resolve items) ps"
  using products_loop_acc [of items "[]" ps] by simp

lemma products_loop_src_missing:
  "\<exists>item \<in> set items. src_missing item \<Longrightarrow> products_loop items acc = Inl (KeyError ''src'')"
proof (induction items arbitrary: acc)
  case Nil
  then show ?case by simp
next
  case (Cons item items)
  show ?case
  proof (cases "all_resolve item")
    case False
    then have "\<not> src_missing item" by (simp add: src_missing_def)
    with Cons.prems have "\<exists>i \<in> set items. src_missing i" by simp
    from Cons.IH [OF this] show ?thesis
      unfolding products_loop_step_skip [OF False] .
  next
    case True
    then obtain name_tag image_tag price_tag where
      parts: "select_one sel_sku_title item = Some name_tag"
        "select_one sel_product_image item = Some image_tag"
        "select_one sel_hero_price item = Some price_tag"
      by (rule all_resolve_parts)
    note step = products_loop_step_emit [OF parts, of items acc]
    show ?thesis
    proof (cases "getitem image_tag ''src''")
      case (Inl e)
      then have "e = KeyError ''src''"
        by (auto simp: getitem_def split: node.splits option.splits)
      with step Inl show ?thesis by simp
    next
      case (Inr src)
      with parts have "\<not> src_missing item" by (simp add: src_missing_def)
      with Cons.prems have "\<exists>i \<in> set items. src_missing i" by simp
      from Cons.IH [OF this] step Inr show ?thesis by simp
    qed
  qed
qed

lemma products_loop_returns:
  "\<forall>item \<in> set items. \<not> src_missing item \<Longrightarrow> \<exists>ps. products_loop items acc = Inr ps"
proof (induction items arbitrary: acc)
  case Nil
  then show ?case by simp
next
  case (Cons item items)
  then have rest: "\<forall>i \<in> set items. \<not> src_missing i" by simp
  show ?case
  proof (cases "all_resolve item")
    case False
    from Cons.IH [OF rest] show ?thesis
      unfolding products_loop_step_skip [OF False] .
  next
    case True
    then obtain name_tag image_tag price_tag where
      parts: "select_one sel_sku_title item = Some name_tag"
        "select_one sel_product_image item = Some image_tag"
        "select_one sel_hero_price item = Some price_tag"
      by (rule all_resolve_parts)
    note step = products_loop_step_emit [OF parts, of items acc]
    from Cons.prems True parts obtain src where "getitem image_tag ''src'' = Inr src"
      by (auto simp: src_missing_def split: sum.splits)
    with step Cons.IH [OF rest] show ?thesis by simp
  qed
qed

lemma products_loop_skip:
  "\<not> all_resolve item \<Longrightarrow>
     products_loop (before @ item # after) acc = products_loop (before @ after) acc"
proof (induction before arbitrary: acc)
  case Nil
  then show ?case using products_loop_step_skip [of item after acc] by simp
next
  case (Cons b bs)
  show ?case
  proof (cases "all_resolve b")
    case False
    have "products_loop ((b # bs) @ item # after) acc = products_loop (bs @ item # after) acc"
      using products_loop_step_skip [OF False] by simp
    also have "\<dots> = products_loop (bs @ after) acc" using Cons by simp
    also have "\<dots> = products_loop ((b # bs) @ after) acc"
      using products_loop_step_skip [OF False] by simp
    finally show ?thesis .
  next
    case True
    then obtain name_tag image_tag price_tag where
      parts: "select_one sel_sku_title b = Some name_tag"
        "select_one sel_product_image b = Some image_tag"
        "select_one sel_hero_price b = Some price_tag"
      by (rule all_resolve_parts)
    show ?thesis
      using Cons parts by (simp split: sum.splits)
  qed
qed

lemma fetch_category_products_unfold:
  assumes "fetch_page_source E BASE_URL w = (Inr m, w1)"
    and "resolve_categories parser m = Inr cats"
    and "match_category U cats q = Some c"
    and "fetch_page_source E (url c) w1 = (Inr m2, w2)"
  shows "fetch_category_products parser U E q w =
           (case extract_products parser m2 of
              Inl e \<Rightarrow> (Inl (HTTPException 500 (str_exn e)), w2)
            | Inr ps \<Rightarrow> (Inr ps, w2))"
  using assms
  by (simp add: fetch_category_products_def fetch_category_products_body_def
      except_Exception_def bind_io_def lift_io_def split: sum.splits)

text \<open>
  Claim C2, as stated, fails: the one SKU item of this page has a title anchor, a
  product image and a price, so all three sub-selectors resolve, but the image has no
  \<open>src\<close> attribute; no record is emitted, the extraction raises \<open>KeyError\<close>.
\<close>

theorem product_with_all_parts_not_emitted:
  "length (soup_select sel_sku_item no_src_doc) = 1
   \<and> list_all all_resolve (soup_select sel_sku_item no_src_doc)
   \<and> products_loop (soup_select sel_sku_item no_src_doc) [] = Inl (KeyError ''src'')"
  by code_simp

text \<open>
  Claim C2, amended. For every product page on which each SKU item whose three
  sub-selectors all resolve has a \<open>src\<close> attribute on its product image, the extraction
  returns, and its records are, one for one and in document order, those of the SKU
  items for which all three sub-selectors resolve: \<open>name\<close> is the trimmed text of the
  title anchor, \<open>photo\<close> the \<open>src\<close> attribute of the image, \<open>price\<close> the trimmed text of
  the price element. An item for which one of the three does not resolve is dropped:
  the loop gives the same result with and without it.
\<close>

theorem product_extraction_all_or_nothing:
  "((\<forall>item \<in> set (soup_select sel_sku_item doc). \<not> src_missing item) \<longrightarrow>
      (\<exists>ps. products_loop (soup_select sel_sku_item doc) [] = Inr ps \<and>
         list_all2 emits_product (filter all_resolve (soup_select sel_sku_item doc)) ps))
   \<and> (\<not> all_resolve item \<longrightarrow>
        products_loop (before @ item # after) acc = products_loop (before @ after) acc)"
proof (intro conjI impI)
  assume "\<forall>item \<in> set (soup_select sel_sku_item doc). \<not> src_missing item"
  from products_loop_returns [OF this, of "[]"] obtain ps where
    ps: "products_loop (soup_select sel_sku_item doc) [] = Inr ps" by blast
  from products_loop_emits [OF ps] ps
  show "\<exists>ps. products_loop (soup_select sel_sku_item doc) [] = Inr ps \<and>
         list_all2 emits_product (filter all_resolve (soup_select sel_sku_item doc)) ps"
    by blast
next
  assume "\<not> all_resolve item"
  then show "products_loop (before @ item # after) acc = products_loop (before @ after) acc"
    by (rule products_loop_skip)
qed

theorem product_extraction_all_or_nothing_witness:
  "list_all (\<lambda>item. \<not> src_missing item) (soup_select sel_sku_item laptops_doc)
   \<and> length (soup_select sel_sku_item laptops_doc) = 2
   \<and> products_loop (soup_select sel_sku_item laptops_doc) [] = Inr [book14]
   \<and> list_all2 emits_product (filter all_resolve (soup_select sel_sku_item laptops_doc))
        [book14]"
proof -
  have a: "list_all (\<lambda>item. \<not> src_missing item) (soup_select sel_sku_item laptops_doc)"
    by code_simp
  have b: "length (soup_select sel_sku_item laptops_doc) = 2" by code_simp
  have c: "products_loop (soup_select sel_sku_item laptops_doc) [] = Inr [book14]"
    by code_simp
  from a have "\<forall>item \<in> set (soup_select sel_sku_item laptops_doc). \<not> src_missing item"
    by (simp add: list_all_iff)
  with product_extraction_all_or_nothing [of laptops_doc] c
  have "list_all2 emits_product (filter all_resolve (soup_select sel_sku_item laptops_doc))
          [book14]"
    by auto
  with a b c show ?thesis by blast
qed

section \<open>Missing attributes\<close>

text \<open>
  Claim C10. When the fetched home page has a carousel item whose first anchor has no
  \<open>href\<close> attribute, \<open>fetch_categories\<close> does not skip the item: it fails with status 500
  and the text of the \<open>KeyError\<close> as detail. When the fetched category page has a SKU
  item whose three sub-selectors resolve and whose image has no \<open>src\<close> attribute,
  \<open>fetch_category_products\<close> fails in the same way. Such pages exist.
\<close>

theorem missing_attribute_raises:
  "(fetch_page_source E BASE_URL w = (Inr m, w1) \<and> parser m = Inr doc \<and>
    (\<exists>item \<in> set (soup_select sel_carousel_item doc). href_missing item) \<longrightarrow>
      fetch_categories parser E w = (Inl (HTTPException 500 (quote ''href'')), w1))
   \<and> (fetch_page_source E BASE_URL w = (Inr m, w1) \<and>
       resolve_categories parser m = Inr cats \<and>
       match_category U cats q = Some c \<and>
       fetch_page_source E (url c) w1 = (Inr m2, w2) \<and> parser m2 = Inr doc2 \<and>
       (\<exists>item \<in> set (soup_select sel_sku_item doc2). src_missing item) \<longrightarrow>
         fetch_category_products parser U E q w =
           (Inl (HTTPException 500 (quote ''src'')), w2))"
proof (intro conjI impI)
  assume h: "fetch_page_source E BASE_URL w = (Inr m, w1) \<and> parser m = Inr doc \<and>
    (\<exists>item \<in> set (soup_select sel_carousel_item doc). href_missing item)"
  then have "extract_categories parser m = Inl (KeyError ''href'')"
    by (simp add: extract_categories_parsed categories_loop_href_missing)
  with h show "fetch_categories parser E w = (Inl (HTTPException 500 (quote ''href'')), w1)"
    by (simp add: fetch_categories_unfold)
next
  assume h: "fetch_page_source E BASE_URL w = (Inr m, w1) \<and>
       resolve_categories parser m = Inr cats \<and>
       match_category U cats q = Some c \<and>
       fetch_page_source E (url c) w1 = (Inr m2, w2) \<and> parser m2 = Inr doc2 \<and>
       (\<exists>item \<in> set (soup_select sel_sku_item doc2). src_missing item)"
  then have "extract_products parser m2 = Inl (KeyError ''src'')"
    by (simp add: extract_products_parsed products_loop_src_missing)
  with h show "fetch_category_products parser U E q w =
      (Inl (HTTPException 500 (quote ''src'')), w2)"
    by (simp add: fetch_category_products_unfold [of E w m w1 parser cats U q c m2 w2])
qed

theorem missing_attribute_raises_witness:
  "(\<exists>item \<in> set (soup_select sel_carousel_item no_href_doc). href_missing item)
   \<and> fetch_categories no_href_parser site_env idle =
       (Inl (HTTPException 500 (quote ''href'')), after_home)
   \<and> (\<exists>item \<in> set (soup_select sel_sku_item no_src_doc). src_missing item)
   \<and> fetch_category_products no_src_parser no_unicode site_env ''laptops'' idle =
       (Inl (HTTPException 500 (quote ''src'')), after_laptops)"
proof -
  have a: "\<exists>item \<in> set (soup_select sel_carousel_item no_href_doc). href_missing item"
    by code_simp
  have b: "\<exists>item \<in> set (soup_select sel_sku_item no_src_doc). src_missing item"
    by code_simp
  have p1: "no_href_parser ''<home>'' = Inr no_href_doc" by code_simp
  have p2: "no_src_parser ''<laptops>'' = Inr no_src_doc" by code_simp
  have c: "resolve_categories no_src_parser ''<home>'' = Inr [laptops_cat, tvs_cat]"
    by code_simp
  have d: "match_category no_unicode [laptops_cat, tvs_cat] ''laptops'' = Some laptops_cat"
    by code_simp
  have e: "fetch_page_source site_env (url laptops_cat) after_home =
             (Inr ''<laptops>'', after_laptops)"
    by code_simp
  note T = missing_attribute_raises
  from a p1 sample_home_fetch
    T [of site_env idle "''<home>''" after_home no_href_parser no_href_doc]
  have "fetch_categories no_href_parser site_env idle =
          (Inl (HTTPException 500 (quote ''href'')), after_home)"
    by blast
  moreover from b p2 c d e sample_home_fetch
    T [where E = site_env and w = idle and m = "''<home>''" and ?w1.0 = after_home
         and parser = no_src_parser and cats = "[laptops_cat, tvs_cat]" and U = no_unicode
         and q = "''laptops''" and c = laptops_cat and ?m2.0 = "''<laptops>''"
         and ?w2.0 = after_laptops and ?doc2.0 = no_src_doc]
  have "fetch_category_products no_src_parser no_unicode site_env ''laptops'' idle =
          (Inl (HTTPException 500 (quote ''src'')), after_laptops)"
    by blast
  ultimately show ?thesis using a b by blast
qed

end
